theory Spec2Isabelle
  imports Main
begin

section \<open>Python strings\<close>

text \<open>
  A Python \<open>str\<close> is a sequence of Unicode code points; \<open>len\<close>, \<open>strip\<close> and
  \<open>split\<close> count and inspect code points, not bytes. A string is therefore a list of
  code points, and \<open>ascii\<close> embeds an ASCII literal.
\<close>

type_synonym str = "nat list"

definition ascii :: "string \<Rightarrow> str" where
  "ascii s = map of_char s"

text \<open>
  The code points for which \<open>str.isspace\<close> holds; \<open>str.strip()\<close> and \<open>str.split()\<close>
  without arguments remove and split at exactly these.
\<close>

definition isspace :: "nat \<Rightarrow> bool" where
  "isspace c \<longleftrightarrow>
     (9 \<le> c \<and> c \<le> 13) \<or> (28 \<le> c \<and> c \<le> 32) \<or> c = 133 \<or> c = 160 \<or> c = 5760 \<or>
     (8192 \<le> c \<and> c \<le> 8202) \<or> c = 8232 \<or> c = 8233 \<or> c = 8239 \<or> c = 8287 \<or> c = 12288"

text \<open>\<open>s.strip()\<close>: leading and trailing whitespace removed.\<close>

definition str_strip :: "str \<Rightarrow> str" where
  "str_strip s = rev (dropWhile isspace (rev (dropWhile isspace s)))"

text \<open>
  \<open>s.split()\<close>: the maximal runs of non-whitespace code points, in order. The first
  argument is the word being read.
\<close>

fun split_from :: "str \<Rightarrow> str \<Rightarrow> str list" where
  "split_from cur [] = (if cur = [] then [] else [cur])"
| "split_from cur (c # cs) =
     (if isspace c then (if cur = [] then split_from [] cs else cur # split_from [] cs)
      else split_from (cur @ [c]) cs)"

definition str_split :: "str \<Rightarrow> str list" where
  "str_split s = split_from [] s"

section \<open>Page records\<close>

text \<open>
  \<open>class PageContent\<close>: the 1-based page number, the recovered text and the tag
  saying how the text was obtained (the strings \<open>TEXT\<close>, \<open>OCR\<close>, \<open>ERROR\<close>).
\<close>

record PageContent =
  page_num :: int
  page_text :: str
  source_type :: str

definition word_count :: "PageContent \<Rightarrow> int" where
  "word_count p = int (length (str_split (page_text p)))"

section \<open>The chunk packer\<close>

text \<open>
  \<open>create_chunks\<close> is one left-to-right loop over the pages with three variables:
  the closed chunks, the open chunk and its running word count.
\<close>

record packer =
  chunks :: "PageContent list list"
  current_chunk :: "PageContent list"
  current_word_count :: int

definition add_page :: "int \<Rightarrow> int \<Rightarrow> packer \<Rightarrow> PageContent \<Rightarrow> packer" where
  "add_page max_words max_pages st page_content =
     (let page_words = word_count page_content;
          would_exceed_words = (current_word_count st + page_words > max_words);
          would_exceed_pages = (int (length (current_chunk st)) \<ge> max_pages);
          st1 = (if current_chunk st \<noteq> [] \<and> (would_exceed_words \<or> would_exceed_pages)
                 then \<lparr>chunks = chunks st @ [current_chunk st],
                       current_chunk = [], current_word_count = 0\<rparr>
                 else st)
      in \<lparr>chunks = chunks st1,
          current_chunk = current_chunk st1 @ [page_content],
          current_word_count = current_word_count st1 + page_words\<rparr>)"

fun pack_loop :: "int \<Rightarrow> int \<Rightarrow> packer \<Rightarrow> PageContent list \<Rightarrow> packer" where
  "pack_loop max_words max_pages st [] = st"
| "pack_loop max_words max_pages st (page_content # rest) =
     pack_loop max_words max_pages (add_page max_words max_pages st page_content) rest"

definition create_chunks :: "int \<Rightarrow> int \<Rightarrow> PageContent list \<Rightarrow> PageContent list list" where
  "create_chunks max_words max_pages pages_content =
     (let st = pack_loop max_words max_pages
                 \<lparr>chunks = [], current_chunk = [], current_word_count = 0\<rparr> pages_content
      in if current_chunk st \<noteq> [] then chunks st @ [current_chunk st] else chunks st)"

text \<open>The total word count of a chunk.\<close>

definition chunk_words :: "PageContent list \<Rightarrow> int" where
  "chunk_words c = sum_list (map word_count c)"

text \<open>
  The loop invariant of the packer: the running count is the word count of the open
  chunk, and the open chunk and every closed chunk respect both ceilings (the word
  ceiling only binds chunks of two or more pages).
\<close>

definition packer_ok :: "int \<Rightarrow> int \<Rightarrow> packer \<Rightarrow> bool" where
  "packer_ok max_words max_pages st \<longleftrightarrow>
     current_word_count st = chunk_words (current_chunk st) \<and>
     int (length (current_chunk st)) \<le> max_pages \<and>
     (2 \<le> length (current_chunk st) \<longrightarrow> chunk_words (current_chunk st) \<le> max_words) \<and>
     (\<forall>c \<in> set (chunks st). c \<noteq> [] \<and> int (length c) \<le> max_pages \<and>
        (2 \<le> length c \<longrightarrow> chunk_words c \<le> max_words))"

section \<open>Exceptions and collaborators\<close>

text \<open>
  An exception is a value. The collaborators (the PDF parser, the rasterizer and the
  recognizer) are outside the program: each is a function of the calls made so far
  and of its arguments, so that a collaborator may answer the same call differently
  the second time. Every call is appended to the history.
\<close>

datatype exn = Exception str | IndexError

fun exn_str :: "exn \<Rightarrow> str" where
  "exn_str (Exception m) = m"
| "exn_str IndexError = ascii ''list index out of range''"

type_synonym image = nat

datatype call = OpenPdf | ExtractText int | ConvertFromPath int | ImageToString image

type_synonym history = "call list"

text \<open>
  \<open>page_count\<close>: opening the file, \<open>pypdf.PdfReader\<close> and \<open>len(pdf_reader.pages)\<close>.
  \<open>extract_text\<close>: \<open>pdf_reader.pages[page_num]\<close> followed by \<open>page.extract_text()\<close>,
  which raises, returns \<open>None\<close> or returns a string.
  \<open>convert_from_path\<close>: the rasterizer on one page (first and last page equal, 300 DPI).
  \<open>image_to_string\<close>: the recognizer on an image, with the language parameter.
\<close>

record collaborators =
  page_count :: "history \<Rightarrow> exn + int"
  extract_text :: "history \<Rightarrow> int \<Rightarrow> exn + str option"
  convert_from_path :: "history \<Rightarrow> int \<Rightarrow> exn + image list"
  image_to_string :: "history \<Rightarrow> image \<Rightarrow> str \<Rightarrow> exn + str"

section \<open>The page extractor\<close>

text \<open>
  \<open>_ocr_page\<close>: rasterize the page, return the empty string when there is no image,
  else recognize the first image and strip the result. Any exception is raised again
  as \<open>Exception("OCR failed: ...")\<close>.
\<close>

definition ocr_page :: "collaborators \<Rightarrow> str \<Rightarrow> int \<Rightarrow> history \<Rightarrow> (exn + str) \<times> history" where
  "ocr_page c ocr_lang page_index h =
     (let h1 = h @ [ConvertFromPath (page_index + 1)] in
      case convert_from_path c h (page_index + 1) of
        Inl e \<Rightarrow> (Inl (Exception (ascii ''OCR failed: '' @ exn_str e)), h1)
      | Inr images \<Rightarrow>
          (case images of
             [] \<Rightarrow> (Inr [], h1)
           | img # _ \<Rightarrow>
               (let h2 = h1 @ [ImageToString img] in
                case image_to_string c h1 img ocr_lang of
                  Inl e \<Rightarrow> (Inl (Exception (ascii ''OCR failed: '' @ exn_str e)), h2)
                | Inr ocr_text \<Rightarrow> (Inr (str_strip ocr_text), h2))))"

text \<open>
  The body of the \<open>try\<close> block of \<open>extract_text_from_page\<close>: direct extraction, the
  threshold of 40 code points on the stripped text, and the recognition fallback,
  whose exception leaves the block like any other.
\<close>

definition try_extract ::
  "collaborators \<Rightarrow> str \<Rightarrow> int \<Rightarrow> history \<Rightarrow> (exn + PageContent) \<times> history" where
  "try_extract c ocr_lang page_index h =
     (let display_page_num = page_index + 1;
          h1 = h @ [ExtractText page_index] in
      case extract_text c h page_index of
        Inl e \<Rightarrow> (Inl e, h1)
      | Inr r \<Rightarrow>
          (let extracted_text = (case r of None \<Rightarrow> [] | Some s \<Rightarrow> s) in
           if 40 \<le> length (str_strip extracted_text)
           then (Inr \<lparr>page_num = display_page_num, page_text = str_strip extracted_text,
                       source_type = ascii ''TEXT''\<rparr>, h1)
           else (case ocr_page c ocr_lang page_index h1 of
                   (Inl e, h2) \<Rightarrow> (Inl e, h2)
                 | (Inr ocr_text, h2) \<Rightarrow>
                     (Inr \<lparr>page_num = display_page_num, page_text = ocr_text,
                            source_type = ascii ''OCR''\<rparr>, h2))))"

text \<open>
  \<open>extract_text_from_page\<close>: the \<open>try\<close> block, and its handler for every exception:
  recognition is attempted, and when that raises too the page is recorded with empty
  text and the tag \<open>ERROR\<close>. The \<open>print\<close> calls are left out: standard output is taken
  to accept every message. The handler prints the caught exception outside its inner
  \<open>try\<close>, so a message that standard output refused would leave the function by an
  exception; such runs are outside this model.
\<close>

definition extract_text_from_page ::
  "collaborators \<Rightarrow> str \<Rightarrow> int \<Rightarrow> history \<Rightarrow> (exn + PageContent) \<times> history" where
  "extract_text_from_page c ocr_lang page_index h =
     (let display_page_num = page_index + 1 in
      case try_extract c ocr_lang page_index h of
        (Inr page_content, h1) \<Rightarrow> (Inr page_content, h1)
      | (Inl e, h1) \<Rightarrow>
          (case ocr_page c ocr_lang page_index h1 of
             (Inr ocr_text, h2) \<Rightarrow>
               (Inr \<lparr>page_num = display_page_num, page_text = ocr_text,
                      source_type = ascii ''OCR''\<rparr>, h2)
           | (Inl ocr_error, h2) \<Rightarrow>
               (Inr \<lparr>page_num = display_page_num, page_text = [],
                      source_type = ascii ''ERROR''\<rparr>, h2)))"

text \<open>How often the rasterizer and the recognizer were called in a history.\<close>

fun is_convert :: "call \<Rightarrow> bool" where
  "is_convert (ConvertFromPath n) = True"
| "is_convert other = False"

fun is_recognize :: "call \<Rightarrow> bool" where
  "is_recognize (ImageToString i) = True"
| "is_recognize other = False"

definition rasterizer_calls :: "history \<Rightarrow> nat" where
  "rasterizer_calls h = length (filter is_convert h)"

definition recognizer_calls :: "history \<Rightarrow> nat" where
  "recognizer_calls h = length (filter is_recognize h)"

section \<open>Number formatting\<close>

text \<open>
  \<open>str(n)\<close> and the format specifications \<open>03d\<close> and \<open>6d\<close> on Python integers:
  decimal digits, a minus sign for negative numbers, zeros between sign and digits
  up to width 3, spaces on the left up to width 6.
\<close>

fun dec_digits :: "nat \<Rightarrow> str" where
  "dec_digits n = (if n < 10 then [48 + n] else dec_digits (n div 10) @ [48 + n mod 10])"

declare dec_digits.simps [simp del]

definition str_int :: "int \<Rightarrow> str" where
  "str_int i = (if i < 0 then 45 # dec_digits (nat (- i)) else dec_digits (nat i))"


definition format_6d :: "int \<Rightarrow> str" where
  "format_6d i = (let s = str_int i in replicate (6 - length s) 32 @ s)"

text \<open>Reading a decimal numeral, with an optional minus sign, back as a number.\<close>

definition digits_value :: "str \<Rightarrow> nat" where
  "digits_value ds = foldl (\<lambda>a d. 10 * a + (d - 48)) 0 ds"

definition parse_int :: "str \<Rightarrow> int" where
  "parse_int s = (if s \<noteq> [] \<and> hd s = 45 then - int (digits_value (tl s))
                  else int (digits_value s))"

definition nl :: str where
  "nl = [10]"


section \<open>Processing all pages\<close>

text \<open>\<open>self.stats\<close>, the counters of a run.\<close>

record stats =
  total_pages :: int
  text_pages :: int
  ocr_pages :: int
  total_chunks :: int

text \<open>
  The loop of \<open>process_pdf\<close> over \<open>range(total_pages)\<close>: each page is extracted and
  appended, and the counter of its source is incremented. An exception of the
  extractor would leave the loop.
\<close>

fun process_pages ::
  "collaborators \<Rightarrow> str \<Rightarrow> int list \<Rightarrow> PageContent list \<Rightarrow> stats \<Rightarrow> history \<Rightarrow>
     (exn + PageContent list \<times> stats) \<times> history" where
  "process_pages c ocr_lang [] pages_content st h = (Inr (pages_content, st), h)"
| "process_pages c ocr_lang (page_index # rest) pages_content st h =
     (case extract_text_from_page c ocr_lang page_index h of
        (Inl e, h1) \<Rightarrow> (Inl e, h1)
      | (Inr page_content, h1) \<Rightarrow>
          process_pages c ocr_lang rest (pages_content @ [page_content])
            (if source_type page_content = ascii ''TEXT''
             then st\<lparr>text_pages := text_pages st + 1\<rparr>
             else if source_type page_content = ascii ''OCR''
             then st\<lparr>ocr_pages := ocr_pages st + 1\<rparr>
             else st) h1)"

definition process_pdf ::
  "collaborators \<Rightarrow> str \<Rightarrow> stats \<Rightarrow> history \<Rightarrow> (exn + PageContent list \<times> stats) \<times> history" where
  "process_pdf c ocr_lang st h =
     (case page_count c h of
        Inl e \<Rightarrow> (Inl e, h @ [OpenPdf])
      | Inr n \<Rightarrow>
          process_pages c ocr_lang [0..n - 1] [] (st\<lparr>total_pages := n\<rparr>) (h @ [OpenPdf]))"

section \<open>The chunk writer\<close>



section \<open>The run log writer\<close>

text \<open>
  \<open>write_log\<close>: the file is opened for writing (its old content is dropped), the two
  header lines are written, then one \<open>f.write\<close> per page appends a row. The result is
  the content of the file.
\<close>

fun write_rows :: "str \<Rightarrow> PageContent list \<Rightarrow> str" where
  "write_rows f [] = f"
| "write_rows f (page # rest) =
     write_rows (f @ format_6d (page_num page) @ ascii ''      | '' @ source_type page @ nl) rest"

definition write_log :: "PageContent list \<Rightarrow> str" where
  "write_log pages_content =
     write_rows (ascii ''Page Number | Source Type'' @ nl @ replicate 30 45 @ nl) pages_content"

text \<open>The lines of a file: the runs of code points between line feeds.\<close>

fun lines_from :: "str \<Rightarrow> str \<Rightarrow> str list" where
  "lines_from cur [] = (if cur = [] then [] else [cur])"
| "lines_from cur (c # cs) =
     (if c = 10 then cur # lines_from [] cs else lines_from (cur @ [c]) cs)"

definition file_lines :: "str \<Rightarrow> str list" where
  "file_lines s = lines_from [] s"

text \<open>A row of the log without its line feed.\<close>

definition log_row :: "PageContent \<Rightarrow> str" where
  "log_row page = format_6d (page_num page) @ ascii ''      | '' @ source_type page"

text \<open>
  Reading a row of the log back: the number field is the run of code points between the
  leading spaces and the next space, the source follows the eight-character separator.
\<close>

definition row_page_num :: "str \<Rightarrow> int" where
  "row_page_num row = parse_int (takeWhile (\<lambda>c. c \<noteq> 32) (dropWhile (\<lambda>c. c = 32) row))"

definition row_source :: "str \<Rightarrow> str" where
  "row_source row = drop 8 (dropWhile (\<lambda>c. c \<noteq> 32) (dropWhile (\<lambda>c. c = 32) row))"

section \<open>Example pages\<close>

text \<open>A page record from ASCII literals, and five pages with 2, 1, 0, 5 and 1 words.\<close>

definition example_page :: "int \<Rightarrow> string \<Rightarrow> string \<Rightarrow> PageContent" where
  "example_page n t s = \<lparr>page_num = n, page_text = ascii t, source_type = ascii s\<rparr>"

definition example_pages :: "PageContent list" where
  "example_pages =
     [example_page 1 ''one two'' ''TEXT'', example_page 2 ''  three '' ''OCR'',
      example_page 3 '''' ''ERROR'', example_page 4 ''a b c d e'' ''TEXT'',
      example_page 5 ''f'' ''TEXT'']"



section \<open>Example collaborators\<close>

text \<open>
  Collaborators that answer by script: direct extraction always answers \<open>direct\<close>, the
  rasterizer and the recognizer answer by the number of their earlier calls.
\<close>

definition scripted ::
  "(exn + str option) \<Rightarrow> (nat \<Rightarrow> exn + image list) \<Rightarrow> (nat \<Rightarrow> exn + str) \<Rightarrow> collaborators" where
  "scripted direct raster recog =
     \<lparr>page_count = (\<lambda>h. Inr 1),
      extract_text = (\<lambda>h i. direct),
      convert_from_path = (\<lambda>h n. raster (rasterizer_calls h)),
      image_to_string = (\<lambda>h img lang. recog (recognizer_calls h))\<rparr>"

definition example_lang :: str where
  "example_lang = ascii ''ara+eng''"

definition long_text :: str where
  "long_text = ascii ''  The quick brown fox jumps over the lazy dog, twice.  ''"

definition short_text :: str where
  "short_text = ascii '' short ''"

definition text_collab :: collaborators where
  "text_collab = scripted (Inr (Some long_text))
     (\<lambda>k. Inl (Exception (ascii ''no rasterizer''))) (\<lambda>k. Inl (Exception (ascii ''no recognizer'')))"

definition scan_collab :: collaborators where
  "scan_collab = scripted (Inr (Some short_text)) (\<lambda>k. Inr [0]) (\<lambda>k. Inr (ascii '' scanned words ''))"

definition blank_collab :: collaborators where
  "blank_collab = scripted (Inr None) (\<lambda>k. Inr []) (\<lambda>k. Inl (Exception (ascii ''no recognizer'')))"

definition space_collab :: collaborators where
  "space_collab = scripted (Inr (Some short_text)) (\<lambda>k. Inr [0]) (\<lambda>k. Inr (ascii ''   ''))"

definition broken_collab :: collaborators where
  "broken_collab = scripted (Inl (Exception (ascii ''broken page'')))
     (\<lambda>k. Inl (Exception (ascii ''no rasterizer''))) (\<lambda>k. Inl (Exception (ascii ''no recognizer'')))"

definition failing_collab :: collaborators where
  "failing_collab = scripted (Inr (Some short_text)) (\<lambda>k. Inr [0])
     (\<lambda>k. Inl (Exception (ascii ''recognizer failed'')))"

definition flaky_collab :: collaborators where
  "flaky_collab = scripted (Inr (Some short_text)) (\<lambda>k. Inr [0])
     (\<lambda>k. if k = 0 then Inl (Exception (ascii ''recognizer failed''))
          else Inr (ascii '' scanned words ''))"

section \<open>Properties of the chunk packer\<close>

lemma pack_loop_concat:
  "concat (chunks (pack_loop mw mp st ps)) @ current_chunk (pack_loop mw mp st ps)
     = concat (chunks st) @ current_chunk st @ ps"
  by (induction ps arbitrary: st) (simp_all add: add_page_def Let_def)

lemma add_page_nonempty:
  "[] \<notin> set (chunks st) \<Longrightarrow> [] \<notin> set (chunks (add_page mw mp st p))"
  by (auto simp: add_page_def Let_def)

lemma pack_loop_nonempty:
  "[] \<notin> set (chunks st) \<Longrightarrow> [] \<notin> set (chunks (pack_loop mw mp st ps))"
  by (induction ps arbitrary: st) (simp_all add: add_page_nonempty)

lemma add_page_ok:
  assumes "0 < mp" "packer_ok mw mp st"
  shows "packer_ok mw mp (add_page mw mp st p)"
  using assms
  by (auto simp: packer_ok_def add_page_def Let_def chunk_words_def)

lemma pack_loop_ok:
  "0 < mp \<Longrightarrow> packer_ok mw mp st \<Longrightarrow> packer_ok mw mp (pack_loop mw mp st ps)"
  by (induction ps arbitrary: st) (simp_all add: add_page_ok)

lemma init_ok: "0 < mp \<Longrightarrow> packer_ok mw mp \<lparr>chunks = [], current_chunk = [], current_word_count = 0\<rparr>"
  by (simp add: packer_ok_def chunk_words_def)

lemma create_chunks_ok:
  assumes "0 < mp" "c \<in> set (create_chunks mw mp ps)"
  shows "c \<noteq> [] \<and> int (length c) \<le> mp \<and> (2 \<le> length c \<longrightarrow> chunk_words c \<le> mw)"
proof -
  let ?st = "pack_loop mw mp \<lparr>chunks = [], current_chunk = [], current_word_count = 0\<rparr> ps"
  have ok: "packer_ok mw mp ?st" using assms(1) by (simp add: pack_loop_ok init_ok)
  from assms(2) have "c \<in> set (chunks ?st) \<or> (c = current_chunk ?st \<and> c \<noteq> [])"
    by (auto simp: create_chunks_def Let_def split: if_splits)
  with ok show ?thesis by (auto simp: packer_ok_def)
qed

lemma create_chunks_concat: "concat (create_chunks mw mp ps) = ps"
  using pack_loop_concat[of mw mp "\<lparr>chunks = [], current_chunk = [], current_word_count = 0\<rparr>" ps]
  by (auto simp: create_chunks_def Let_def)

lemma create_chunks_nonempty: "[] \<notin> set (create_chunks mw mp ps)"
  using pack_loop_nonempty[of "\<lparr>chunks = [], current_chunk = [], current_word_count = 0\<rparr>" mw mp ps]
  by (auto simp: create_chunks_def Let_def)

lemma in_concat_run: "c \<in> set cs \<Longrightarrow> \<exists>before after. concat cs = before @ c @ after"
proof -
  assume "c \<in> set cs"
  then obtain ys zs where "cs = ys @ c # zs" by (auto dest: split_list)
  then have "concat cs = concat ys @ c @ concat zs" by simp
  then show ?thesis by blast
qed

lemma example_word_counts:
  "word_count (example_page 1 ''one two'' ''TEXT'') = 2"
  "word_count (example_page 2 ''  three '' ''OCR'') = 1"
  "word_count (example_page 3 '''' ''ERROR'') = 0"
  "word_count (example_page 4 ''a b c d e'' ''TEXT'') = 5"
  "word_count (example_page 5 ''f'' ''TEXT'') = 1"
  by (simp_all add: word_count_def example_page_def ascii_def str_split_def isspace_def)

lemma example_chunks:
  "create_chunks 4 2 example_pages =
     [[example_page 1 ''one two'' ''TEXT'', example_page 2 ''  three '' ''OCR''],
      [example_page 3 '''' ''ERROR''], [example_page 4 ''a b c d e'' ''TEXT''],
      [example_page 5 ''f'' ''TEXT'']]"
  by (simp add: create_chunks_def add_page_def Let_def example_pages_def example_word_counts)

text \<open>
  C1. For every list of pages and all ceilings, the chunks of \<open>create_chunks\<close>
  concatenated in order are exactly the input list, so no page is lost, duplicated or
  reordered; no chunk is empty, and every chunk is a contiguous run of the input.
\<close>

theorem create_chunks_partition:
  "concat (create_chunks max_words max_pages pages_content) = pages_content \<and>
   (\<forall>c \<in> set (create_chunks max_words max_pages pages_content).
      c \<noteq> [] \<and> (\<exists>before after. pages_content = before @ c @ after))"
proof (intro conjI ballI)
  show "concat (create_chunks max_words max_pages pages_content) = pages_content"
    by (rule create_chunks_concat)
next
  fix c assume c: "c \<in> set (create_chunks max_words max_pages pages_content)"
  then show "c \<noteq> []" using create_chunks_nonempty[of max_words max_pages pages_content] by auto
  from in_concat_run[OF c] show "\<exists>before after. pages_content = before @ c @ after"
    by (simp add: create_chunks_concat)
qed

theorem create_chunks_partition_witness:
  "concat (create_chunks 4 2 example_pages) = example_pages \<and>
   [example_page 3 '''' ''ERROR''] \<in> set (create_chunks 4 2 example_pages) \<and>
   (\<exists>before after. example_pages = before @ [example_page 3 '''' ''ERROR''] @ after)"
proof -
  have mem: "[example_page 3 '''' ''ERROR''] \<in> set (create_chunks 4 2 example_pages)"
    by (simp add: example_chunks)
  from create_chunks_partition[of 4 2 example_pages] mem show ?thesis by blast
qed

lemma create_chunks_several_pages:
  assumes "0 < max_pages" "c \<in> set (create_chunks max_words max_pages pages_content)"
    and "2 \<le> length c"
  shows "chunk_words c \<le> max_words"
  using create_chunks_ok[OF assms(1,2)] assms(3) by simp

text \<open>
  C2. For positive ceilings, a chunk of \<open>create_chunks\<close> whose total word count
  exceeds \<open>max_words\<close> holds exactly one page.
\<close>

theorem create_chunks_word_ceiling:
  assumes "0 < max_words" "0 < max_pages"
    and "c \<in> set (create_chunks max_words max_pages pages_content)"
    and "max_words < chunk_words c"
  shows "length c = 1"
proof -
  from create_chunks_ok[OF assms(2,3)]
  have ne: "c \<noteq> []" and le: "2 \<le> length c \<longrightarrow> chunk_words c \<le> max_words"
    by simp_all
  from ne have "1 \<le> length c" by (cases c) simp_all
  with le assms(4) show ?thesis by arith
qed

theorem create_chunks_word_ceiling_witness:
  "(0::int) < 4 \<and> (0::int) < 2 \<and>
   [example_page 4 ''a b c d e'' ''TEXT''] \<in> set (create_chunks 4 2 example_pages) \<and>
   4 < chunk_words [example_page 4 ''a b c d e'' ''TEXT''] \<and>
   length [example_page 4 ''a b c d e'' ''TEXT''] = 1"
proof -
  have m1: "[example_page 4 ''a b c d e'' ''TEXT''] \<in> set (create_chunks 4 2 example_pages)"
    by (simp add: example_chunks)
  have w: "4 < chunk_words [example_page 4 ''a b c d e'' ''TEXT'']"
    by (simp add: chunk_words_def example_word_counts)
  from create_chunks_word_ceiling[of 4 2 _ example_pages, OF _ _ m1 w] m1 w
  show ?thesis by simp
qed

text \<open>
  C3. For positive ceilings, no chunk of \<open>create_chunks\<close> holds more than
  \<open>max_pages\<close> pages.
\<close>

theorem create_chunks_page_ceiling:
  assumes "0 < max_words" "0 < max_pages"
    and "c \<in> set (create_chunks max_words max_pages pages_content)"
  shows "int (length c) \<le> max_pages"
  using create_chunks_ok[OF assms(2,3)] by simp

theorem create_chunks_page_ceiling_witness:
  "(0::int) < 4 \<and> (0::int) < 2 \<and>
   [example_page 1 ''one two'' ''TEXT'', example_page 2 ''  three '' ''OCR'']
      \<in> set (create_chunks 4 2 example_pages) \<and>
   int (length [example_page 1 ''one two'' ''TEXT'', example_page 2 ''  three '' ''OCR'']) \<le> 2"
proof -
  have m2: "[example_page 1 ''one two'' ''TEXT'', example_page 2 ''  three '' ''OCR'']
      \<in> set (create_chunks 4 2 example_pages)"
    by (simp add: example_chunks)
  from create_chunks_page_ceiling[of 4 2 _ example_pages, OF _ _ m2] m2
  show ?thesis by simp
qed

section \<open>Properties of the page extractor\<close>

lemma dropWhile_strip: "dropWhile isspace (str_strip s) = str_strip s"
proof -
  let ?t = "dropWhile isspace s"
  let ?u = "rev (dropWhile isspace (rev ?t))"
  have t: "?t = ?u @ rev (takeWhile isspace (rev ?t))"
    by (metis rev_append rev_rev_ident takeWhile_dropWhile_id)
  show ?thesis
  proof (cases "?u = []")
    case True
    then have "str_strip s = []" unfolding str_strip_def .
    then show ?thesis by simp
  next
    case False
    then have "hd ?u = hd ?t" using t by (metis hd_append2)
    moreover have "?t \<noteq> []"
    proof
      assume a: "?t = []"
      have "?u = []" unfolding a by simp
      with False show False by simp
    qed
    then have "\<not> isspace (hd ?t)" by (rule hd_dropWhile)
    ultimately have "\<not> isspace (hd ?u)" by simp
    with False have "dropWhile isspace ?u = ?u" by (cases ?u) auto
    then show ?thesis by (simp add: str_strip_def)
  qed
qed

lemma str_strip_idem: "str_strip (str_strip s) = str_strip s"
proof -
  have "str_strip (str_strip s) = rev (dropWhile isspace (rev (str_strip s)))"
    unfolding str_strip_def[of "str_strip s"] by (simp add: dropWhile_strip)
  also have "\<dots> = str_strip s"
    by (simp add: str_strip_def dropWhile_idem)
  finally show ?thesis .
qed

lemma str_strip_Nil: "str_strip [] = []"
  by (simp add: str_strip_def)

lemma ocr_page_stripped:
  "ocr_page c ocr_lang i h = (Inr t, h') \<Longrightarrow> str_strip t = t"
  by (auto simp: ocr_page_def Let_def str_strip_idem str_strip_Nil split: sum.splits list.splits)

lemma ocr_page_rasterizer:
  "rasterizer_calls (snd (ocr_page c ocr_lang i h)) = Suc (rasterizer_calls h)"
  by (auto simp: ocr_page_def Let_def rasterizer_calls_def split: sum.splits list.splits)

lemma ocr_page_recognizer:
  "recognizer_calls (snd (ocr_page c ocr_lang i h)) \<le> Suc (recognizer_calls h)"
  by (auto simp: ocr_page_def Let_def recognizer_calls_def split: sum.splits list.splits)

lemmas extract_defs = extract_text_from_page_def try_extract_def Let_def

lemma extract_total:
  "\<exists>p h'. extract_text_from_page c ocr_lang i h = (Inr p, h') \<and> page_num p = i + 1"
  by (auto simp: extract_defs split: sum.splits prod.splits)

text \<open>
  C5. When direct extraction returns a string whose stripped form has at least 40 code
  points, the extractor returns the record tagged \<open>TEXT\<close> whose text is that string
  with leading and trailing whitespace removed; no other collaborator is called.
\<close>

theorem extract_text_threshold:
  assumes "extract_text c h i = Inr (Some s)" and "40 \<le> length (str_strip s)"
  shows "extract_text_from_page c ocr_lang i h =
           (Inr \<lparr>page_num = i + 1, page_text = str_strip s, source_type = ascii ''TEXT''\<rparr>,
            h @ [ExtractText i])"
  using assms by (simp add: extract_defs)

text \<open>
  C10. For every input the extractor returns a record, and the text of the record is
  whitespace-trimmed: stripping it again changes nothing.
\<close>

theorem extract_text_stripped:
  "\<exists>p. fst (extract_text_from_page c ocr_lang i h) = Inr p \<and>
       str_strip (page_text p) = page_text p"
  by (auto simp: extract_defs str_strip_idem str_strip_Nil
      split: sum.splits prod.splits dest: ocr_page_stripped)

text \<open>
  C4, as amended. A record of the extractor with empty text is never tagged \<open>TEXT\<close>;
  its tag is \<open>OCR\<close> or \<open>ERROR\<close>.
\<close>

theorem extract_empty_text_source:
  assumes "extract_text_from_page c ocr_lang i h = (Inr p, h')" and "page_text p = []"
  shows "source_type p \<noteq> ascii ''TEXT'' \<and>
         (source_type p = ascii ''OCR'' \<or> source_type p = ascii ''ERROR'')"
  using assms
  by (auto simp: extract_defs ascii_def split: sum.splits prod.splits if_splits)

text \<open>
  The fallback path, exactly. After an exception of direct extraction, recognition is
  attempted once. After short text, recognition is attempted inside the \<open>try\<close> block, and
  an exception of that attempt reaches the handler, which attempts recognition again.
\<close>

lemma fallback_after_extraction_error:
  assumes "extract_text c h i = Inl e"
  shows "extract_text_from_page c ocr_lang i h =
           (case ocr_page c ocr_lang i (h @ [ExtractText i]) of
              (Inr ocr_text, h2) \<Rightarrow>
                (Inr \<lparr>page_num = i + 1, page_text = ocr_text, source_type = ascii ''OCR''\<rparr>, h2)
            | (Inl ocr_error, h2) \<Rightarrow>
                (Inr \<lparr>page_num = i + 1, page_text = [], source_type = ascii ''ERROR''\<rparr>, h2))"
  using assms by (simp add: extract_defs split: sum.splits prod.splits)

lemma fallback_after_short_text:
  assumes "extract_text c h i = Inr r"
    and "length (str_strip (case r of None \<Rightarrow> [] | Some s \<Rightarrow> s)) < 40"
  shows "extract_text_from_page c ocr_lang i h =
           (case ocr_page c ocr_lang i (h @ [ExtractText i]) of
              (Inr ocr_text, h2) \<Rightarrow>
                (Inr \<lparr>page_num = i + 1, page_text = ocr_text, source_type = ascii ''OCR''\<rparr>, h2)
            | (Inl first_error, h2) \<Rightarrow>
                (case ocr_page c ocr_lang i h2 of
                   (Inr ocr_text, h3) \<Rightarrow>
                     (Inr \<lparr>page_num = i + 1, page_text = ocr_text,
                           source_type = ascii ''OCR''\<rparr>, h3)
                 | (Inl ocr_error, h3) \<Rightarrow>
                     (Inr \<lparr>page_num = i + 1, page_text = [],
                           source_type = ascii ''ERROR''\<rparr>, h3)))"
  using assms by (simp add: extract_defs split: sum.splits prod.splits)

text \<open>
  The extractor attempts recognition at most twice, and exactly once after an exception
  of direct extraction.
\<close>

lemma ocr_attempts_bound:
  "recognizer_calls (snd (extract_text_from_page c ocr_lang i h)) \<le> recognizer_calls h + 2 \<and>
   rasterizer_calls (snd (extract_text_from_page c ocr_lang i h)) \<le> rasterizer_calls h + 2"
proof -
  let ?h1 = "h @ [ExtractText i]"
  obtain a h2 where o1: "ocr_page c ocr_lang i ?h1 = (a, h2)"
    by (cases "ocr_page c ocr_lang i ?h1")
  obtain b h3 where o2: "ocr_page c ocr_lang i h2 = (b, h3)"
    by (cases "ocr_page c ocr_lang i h2")
  have r0: "recognizer_calls ?h1 = recognizer_calls h" "rasterizer_calls ?h1 = rasterizer_calls h"
    by (simp_all add: recognizer_calls_def rasterizer_calls_def)
  from ocr_page_recognizer[of c ocr_lang i ?h1] ocr_page_rasterizer[of c ocr_lang i ?h1] o1 r0
  have r1: "recognizer_calls h2 \<le> recognizer_calls h + 1" "rasterizer_calls h2 = rasterizer_calls h + 1"
    by simp_all
  from ocr_page_recognizer[of c ocr_lang i h2] ocr_page_rasterizer[of c ocr_lang i h2] o2 r1
  have r2: "recognizer_calls h3 \<le> recognizer_calls h + 2" "rasterizer_calls h3 = rasterizer_calls h + 2"
    by simp_all
  show ?thesis using o1 o2 r0 r1 r2
    by (cases "extract_text c h i"; cases a; cases b)
       (auto simp: extract_defs split: sum.splits prod.splits)
qed

lemma ocr_once_after_extraction_error:
  assumes "extract_text c h i = Inl e"
  shows "rasterizer_calls (snd (extract_text_from_page c ocr_lang i h)) = Suc (rasterizer_calls h)"
proof -
  have "rasterizer_calls (snd (ocr_page c ocr_lang i (h @ [ExtractText i]))) = Suc (rasterizer_calls h)"
    by (simp add: ocr_page_rasterizer) (simp add: rasterizer_calls_def)
  with assms show ?thesis
    by (auto simp: extract_defs split: sum.splits prod.splits)
qed

lemmas eval_defs = extract_defs ocr_page_def scripted_def rasterizer_calls_def
  recognizer_calls_def ascii_def str_strip_def isspace_def example_lang_def short_text_def long_text_def

lemma long_text_stripped:
  "str_strip long_text = ascii ''The quick brown fox jumps over the lazy dog, twice.''"
  by (simp add: long_text_def ascii_def str_strip_def isspace_def)

theorem extract_text_threshold_witness:
  "extract_text text_collab [] 0 = Inr (Some long_text) \<and>
   40 \<le> length (str_strip long_text) \<and>
   extract_text_from_page text_collab example_lang 0 [] =
     (Inr \<lparr>page_num = 1,
           page_text = ascii ''The quick brown fox jumps over the lazy dog, twice.'',
           source_type = ascii ''TEXT''\<rparr>, [ExtractText 0])"
proof -
  have a: "extract_text text_collab [] 0 = Inr (Some long_text)"
    by (simp add: text_collab_def scripted_def)
  have b: "40 \<le> length (str_strip long_text)"
    by (simp add: long_text_stripped ascii_def)
  from extract_text_threshold[OF a b, of example_lang] a b show ?thesis
    by (simp add: long_text_stripped)
qed

lemma scan_collab_result:
  "extract_text_from_page scan_collab example_lang 0 [] =
     (Inr \<lparr>page_num = 1, page_text = ascii ''scanned words'', source_type = ascii ''OCR''\<rparr>,
      [ExtractText 0, ConvertFromPath 1, ImageToString 0])"
  by (simp add: scan_collab_def eval_defs)

theorem extract_text_stripped_witness:
  "fst (extract_text_from_page scan_collab example_lang 0 []) =
     Inr \<lparr>page_num = 1, page_text = ascii ''scanned words'', source_type = ascii ''OCR''\<rparr> \<and>
   str_strip (ascii ''scanned words'') = ascii ''scanned words''"
  using extract_text_stripped[of scan_collab example_lang 0 "[]"]
  by (simp add: scan_collab_result)

lemma blank_collab_result:
  "extract_text_from_page blank_collab example_lang 0 [] =
     (Inr \<lparr>page_num = 1, page_text = [], source_type = ascii ''OCR''\<rparr>,
      [ExtractText 0, ConvertFromPath 1])"
  by (simp add: blank_collab_def eval_defs)

lemma space_collab_result:
  "extract_text_from_page space_collab example_lang 0 [] =
     (Inr \<lparr>page_num = 1, page_text = [], source_type = ascii ''OCR''\<rparr>,
      [ExtractText 0, ConvertFromPath 1, ImageToString 0])"
  by (simp add: space_collab_def eval_defs)

text \<open>
  C4 as stated fails: a page for which the rasterizer returns no image, and a page whose
  recognized text is only whitespace, are recorded with empty text and the tag \<open>OCR\<close>.
\<close>

theorem extract_empty_text_ocr:
  "fst (extract_text_from_page blank_collab example_lang 0 []) =
     Inr \<lparr>page_num = 1, page_text = [], source_type = ascii ''OCR''\<rparr> \<and>
   fst (extract_text_from_page space_collab example_lang 0 []) =
     Inr \<lparr>page_num = 1, page_text = [], source_type = ascii ''OCR''\<rparr> \<and>
   ascii ''OCR'' \<noteq> ascii ''ERROR''"
  by (simp add: blank_collab_result space_collab_result) (simp add: ascii_def)

theorem extract_empty_text_source_witness:
  "extract_text_from_page blank_collab example_lang 0 [] =
     (Inr \<lparr>page_num = 1, page_text = [], source_type = ascii ''OCR''\<rparr>,
      [ExtractText 0, ConvertFromPath 1]) \<and>
   page_text \<lparr>page_num = 1, page_text = [], source_type = ascii ''OCR''\<rparr> = [] \<and>
   source_type \<lparr>page_num = 1, page_text = [], source_type = ascii ''OCR''\<rparr> \<noteq> ascii ''TEXT''"
  using extract_empty_text_source[OF blank_collab_result]
  by (simp add: blank_collab_result)

lemma broken_collab_result:
  "extract_text_from_page broken_collab example_lang 0 [] =
     (Inr \<lparr>page_num = 1, page_text = [], source_type = ascii ''ERROR''\<rparr>,
      [ExtractText 0, ConvertFromPath 1])"
  by (simp add: broken_collab_def eval_defs)

text \<open>
  C7. Short direct text sends the page to recognition inside the \<open>try\<close> block; when
  that attempt raises, the handler attempts recognition again, so the recognizer is
  called twice for the same page.
\<close>

theorem ocr_attempted_twice:
  "extract_text_from_page failing_collab example_lang 0 [] =
     (Inr \<lparr>page_num = 1, page_text = [], source_type = ascii ''ERROR''\<rparr>,
      [ExtractText 0, ConvertFromPath 1, ImageToString 0, ConvertFromPath 1, ImageToString 0]) \<and>
   recognizer_calls (snd (extract_text_from_page failing_collab example_lang 0 [])) = 2"
  by (simp add: failing_collab_def eval_defs)

text \<open>
  C6. The claim fails where the first recognition attempt raises and the second returns:
  the direct text is short, the fallback attempt made in the \<open>try\<close> block fails, and yet
  the page is recorded with the tag \<open>OCR\<close> and the text of the handler's second attempt,
  not with the tag \<open>ERROR\<close> and empty text.
\<close>

theorem failed_fallback_recorded_as_ocr:
  "extract_text flaky_collab [] 0 = Inr (Some short_text) \<and>
   length (str_strip short_text) < 40 \<and>
   ocr_page flaky_collab example_lang 0 [ExtractText 0] =
     (Inl (Exception (ascii ''OCR failed: recognizer failed'')),
      [ExtractText 0, ConvertFromPath 1, ImageToString 0]) \<and>
   extract_text_from_page flaky_collab example_lang 0 [] =
     (Inr \<lparr>page_num = 1, page_text = ascii ''scanned words'', source_type = ascii ''OCR''\<rparr>,
      [ExtractText 0, ConvertFromPath 1, ImageToString 0, ConvertFromPath 1, ImageToString 0]) \<and>
   ascii ''OCR'' \<noteq> ascii ''ERROR'' \<and> ascii ''scanned words'' \<noteq> []"
  by (simp add: flaky_collab_def eval_defs)

lemma process_pages_total:
  "\<exists>ps st' h'. process_pages c ocr_lang idxs acc st h = (Inr (ps, st'), h') \<and>
      length ps = length acc + length idxs"
proof (induction idxs arbitrary: acc st h)
  case Nil
  then show ?case by simp
next
  case (Cons i idxs)
  obtain p h1 where p: "extract_text_from_page c ocr_lang i h = (Inr p, h1)"
    using extract_total[of c ocr_lang i h] by blast
  show ?case using Cons.IH[of "acc @ [p]" _ h1] p by simp
qed

lemma process_pdf_total:
  assumes "page_count c h = Inr n"
  shows "\<exists>ps st' h'. process_pdf c ocr_lang st h = (Inr (ps, st'), h') \<and> length ps = nat n"
  using assms process_pages_total[of c ocr_lang "[0..n - 1]" "[]" "st\<lparr>total_pages := n\<rparr>" "h @ [OpenPdf]"]
  by (auto simp: process_pdf_def)

section \<open>Properties of the writers\<close>

lemma dec_digits_ne: "dec_digits n \<noteq> []"
  by (subst dec_digits.simps) simp

lemma dec_digits_set: "c \<in> set (dec_digits n) \<Longrightarrow> 48 \<le> c \<and> c \<le> 57"
proof (induction n rule: dec_digits.induct)
  case (1 n)
  show ?case
  proof (cases "n < 10")
    case True
    with "1.prems" show ?thesis by (subst (asm) dec_digits.simps) simp
  next
    case False
    have "n mod 10 < 10" by simp
    then have m: "48 + n mod 10 \<le> 57" by linarith
    from "1.prems" False have "c \<in> set (dec_digits (n div 10)) \<or> c = 48 + n mod 10"
      by (subst (asm) dec_digits.simps) auto
    with "1.IH"[OF False] m show ?thesis by auto
  qed
qed

lemma digits_value_snoc: "digits_value (xs @ [d]) = 10 * digits_value xs + (d - 48)"
  by (simp add: digits_value_def)

lemma digits_value_dec: "digits_value (dec_digits n) = n"
proof (induction n rule: dec_digits.induct)
  case (1 n)
  show ?case
  proof (cases "n < 10")
    case True
    then show ?thesis by (subst dec_digits.simps) (simp add: digits_value_def)
  next
    case False
    then have "dec_digits n = dec_digits (n div 10) @ [48 + n mod 10]"
      by (subst dec_digits.simps) simp
    then show ?thesis using "1.IH"[OF False] by (simp add: digits_value_snoc)
  qed
qed


lemma dec_digits_hd: "hd (dec_digits n) \<noteq> 45" "hd (dec_digits n) \<noteq> 32"
  using dec_digits_set[of "hd (dec_digits n)" n] dec_digits_ne[of n] by auto



lemma parse_str_int: "parse_int (str_int i) = i"
proof (cases "i < 0")
  case True
  then show ?thesis by (simp add: str_int_def parse_int_def digits_value_dec)
next
  case False
  then show ?thesis using dec_digits_hd(1)[of "nat i"]
    by (simp add: str_int_def parse_int_def digits_value_dec)
qed


lemma str_int_inj: "str_int i = str_int j \<Longrightarrow> i = j"
  by (metis parse_str_int)


lemma str_int_chars: "c \<in> set (str_int i) \<Longrightarrow> c = 45 \<or> (48 \<le> c \<and> c \<le> 57)"
  using dec_digits_set[of c "nat i"] dec_digits_set[of c "nat (- i)"]
  by (auto simp: str_int_def split: if_splits)

lemma takeWhile_until: "d \<notin> set x \<Longrightarrow> takeWhile (\<lambda>c. c \<noteq> d) (x @ d # r) = x"
  by (induction x) auto








lemma write_rows_concat:
  "write_rows f pages = f @ concat (map (\<lambda>p. log_row p @ nl) pages)"
  by (induction pages arbitrary: f) (simp_all add: log_row_def)

lemma lines_from_line:
  "10 \<notin> set l \<Longrightarrow> lines_from cur (l @ 10 # rest) = (cur @ l) # lines_from [] rest"
  by (induction l arbitrary: cur) auto

lemma format_6d_chars: "c \<in> set (format_6d i) \<Longrightarrow> c = 32 \<or> c = 45 \<or> (48 \<le> c \<and> c \<le> 57)"
  using str_int_chars[of c i] by (auto simp: format_6d_def Let_def)

lemma log_row_no_newline: "10 \<notin> set (source_type p) \<Longrightarrow> 10 \<notin> set (log_row p)"
  using format_6d_chars[of 10 "page_num p"] by (auto simp: log_row_def ascii_def)

lemma lines_rows:
  "\<forall>p \<in> set pages. 10 \<notin> set (source_type p) \<Longrightarrow>
   lines_from [] (concat (map (\<lambda>p. log_row p @ nl) pages)) = map log_row pages"
proof (induction pages)
  case Nil
  then show ?case by simp
next
  case (Cons p pages)
  then have "10 \<notin> set (log_row p)" by (simp add: log_row_no_newline)
  from lines_from_line[OF this, of "[]"] Cons show ?case by (simp add: nl_def)
qed

lemma str_int_ne: "str_int i \<noteq> []"
  by (simp add: str_int_def dec_digits_ne)

lemma str_int_hd: "hd (str_int i) \<noteq> 32"
  using dec_digits_hd(2)[of "nat i"] by (simp add: str_int_def)

lemma log_row_shape:
  "dropWhile (\<lambda>c. c = 32) (log_row p) =
     str_int (page_num p) @ 32 # [32, 32, 32, 32, 32, 124, 32] @ source_type p"
proof -
  let ?S = "str_int (page_num p)"
  let ?k = "6 - length ?S"
  let ?rest = "[32, 32, 32, 32, 32, 124, 32] @ source_type p"
  have row: "log_row p = replicate ?k 32 @ (?S @ 32 # ?rest)"
    by (simp add: log_row_def format_6d_def Let_def ascii_def)
  have "dropWhile (\<lambda>c. c = 32) (replicate ?k 32 @ (?S @ 32 # ?rest))
          = dropWhile (\<lambda>c. c = 32) (?S @ 32 # ?rest)"
    by (rule dropWhile_append2) simp
  also have "\<dots> = ?S @ 32 # ?rest"
    using str_int_ne[of "page_num p"] str_int_hd[of "page_num p"] by (cases ?S) auto
  finally show ?thesis by (simp only: row)
qed

lemma dropWhile_until: "d \<notin> set x \<Longrightarrow> dropWhile (\<lambda>c. c \<noteq> d) (x @ d # r) = d # r"
  by (induction x) auto

lemma row_read_back:
  "row_page_num (log_row p) = page_num p \<and> row_source (log_row p) = source_type p"
proof -
  have s: "32 \<notin> set (str_int (page_num p))" using str_int_chars[of 32 "page_num p"] by auto
  show ?thesis
    unfolding row_page_num_def row_source_def log_row_shape
    by (simp add: takeWhile_until[OF s] dropWhile_until[OF s] parse_str_int)
qed

text \<open>
  C9. The log file consists of the two header lines followed by one row per page record
  in input order. When no source tag contains a line feed, the lines of the file are the
  two header lines and then exactly the rows of the pages, in order. The page number
  and the source tag of a page can be read back from its row.
\<close>

theorem write_log_rows:
  "write_log pages_content =
     ascii ''Page Number | Source Type'' @ nl @ replicate 30 45 @ nl @
     concat (map (\<lambda>page. log_row page @ nl) pages_content) \<and>
   ((\<forall>page \<in> set pages_content. 10 \<notin> set (source_type page)) \<longrightarrow>
      file_lines (write_log pages_content) =
        [ascii ''Page Number | Source Type'', replicate 30 45] @ map log_row pages_content) \<and>
   (\<forall>page. row_page_num (log_row page) = page_num page \<and>
      row_source (log_row page) = source_type page)"
proof (intro conjI impI allI)
  show w: "write_log pages_content =
     ascii ''Page Number | Source Type'' @ nl @ replicate 30 45 @ nl @
     concat (map (\<lambda>page. log_row page @ nl) pages_content)"
    by (simp add: write_log_def write_rows_concat)
  {
    assume a: "\<forall>page \<in> set pages_content. 10 \<notin> set (source_type page)"
    let ?R = "concat (map (\<lambda>page. log_row page @ nl) pages_content)"
    have h1: "10 \<notin> set (ascii ''Page Number | Source Type'')" by (simp add: ascii_def)
    have h2: "10 \<notin> set (replicate 30 (45::nat))" by simp
    have "file_lines (write_log pages_content) =
            lines_from [] (ascii ''Page Number | Source Type'' @ 10 # (replicate 30 45 @ 10 # ?R))"
      by (simp add: file_lines_def w nl_def)
    also have "\<dots> = ascii ''Page Number | Source Type'' # lines_from [] (replicate 30 45 @ 10 # ?R)"
      using lines_from_line[OF h1, of "[]"] by simp
    also have "lines_from [] (replicate 30 45 @ 10 # ?R) = replicate 30 45 # lines_from [] ?R"
      using lines_from_line[OF h2, of "[]"] by simp
    also have "lines_from [] ?R = map log_row pages_content"
      using a by (rule lines_rows)
    finally show "file_lines (write_log pages_content) =
        [ascii ''Page Number | Source Type'', replicate 30 45] @ map log_row pages_content"
      by simp
  }
  fix page :: PageContent
  show "row_page_num (log_row page) = page_num page" "row_source (log_row page) = source_type page"
    using row_read_back by blast+
qed

lemma replicate_5: "replicate 5 x = [x, x, x, x, x]"
  by (simp add: eval_nat_numeral)

lemma replicate_30:
  "replicate 30 x = [x, x, x, x, x, x, x, x, x, x, x, x, x, x, x, x, x, x, x, x,
                     x, x, x, x, x, x, x, x, x, x]"
  by (simp add: eval_nat_numeral)

lemma example_rows:
  "map log_row example_pages =
     [ascii ''     1      | TEXT'', ascii ''     2      | OCR'', ascii ''     3      | ERROR'',
      ascii ''     4      | TEXT'', ascii ''     5      | TEXT'']"
  by (simp add: example_pages_def example_page_def log_row_def format_6d_def str_int_def
      dec_digits.simps Let_def ascii_def replicate_5)

theorem write_log_rows_witness:
  "(10 \<notin> set (source_type (example_page 1 ''one two'' ''TEXT''))) \<and>
   file_lines (write_log example_pages) =
     [ascii ''Page Number | Source Type'', ascii ''------------------------------'',
      ascii ''     1      | TEXT'', ascii ''     2      | OCR'', ascii ''     3      | ERROR'',
      ascii ''     4      | TEXT'', ascii ''     5      | TEXT''] \<and>
   length (file_lines (write_log example_pages)) = 2 + length example_pages"
proof -
  have nn: "\<forall>page \<in> set example_pages. 10 \<notin> set (source_type page)"
    by (simp add: example_pages_def example_page_def ascii_def)
  have d: "replicate 30 (45::nat) = ascii ''------------------------------''"
    by (simp add: ascii_def replicate_30)
  from write_log_rows[of example_pages] nn
  have "file_lines (write_log example_pages) =
        [ascii ''Page Number | Source Type'', replicate 30 45] @ map log_row example_pages"
    by blast
  then have l: "file_lines (write_log example_pages) =
     [ascii ''Page Number | Source Type'', ascii ''------------------------------'',
      ascii ''     1      | TEXT'', ascii ''     2      | OCR'', ascii ''     3      | ERROR'',
      ascii ''     4      | TEXT'', ascii ''     5      | TEXT'']"
    by (simp only: example_rows d append.simps)
  have s: "10 \<notin> set (source_type (example_page 1 ''one two'' ''TEXT''))"
    by (simp add: example_page_def ascii_def)
  have n: "length example_pages = 5" by (simp add: example_pages_def)
  from l s n show ?thesis by simp
qed

end
